theory Spec2Isabelle
  imports Complex_Main "HOL-Library.Word"
begin

section \<open>The fixed-point response type\<close>

text \<open>
  \<^verbatim>\<open>static const int LOG_NUM_BITS = 16; static const int LOG_INTEGER_BITS = 2;\<close>
  \<^verbatim>\<open>typedef ap_fixed<LOG_NUM_BITS, LOG_INTEGER_BITS> log_response_t;\<close>

  The first parameter of \<^verbatim>\<open>ap_fixed<W, I>\<close> is the total width of the value in bits,
  the second the number of bits left of the binary point, sign bit included; the
  remaining \<open>W - I\<close> bits are the fraction. The quantisation and overflow modes are the
  defaults: a value that is not representable is truncated towards minus infinity, and
  a result that does not fit wraps around. A value of the type is therefore a signed
  16-bit integer \<open>m\<close> that stands for \<open>m / 2 ^ 14\<close>: addition is the addition of
  \<open>16 word\<close>, comparison is the comparison of \<open>sint\<close>.
\<close>

definition LOG_NUM_BITS :: nat where
  "LOG_NUM_BITS = 16"

definition LOG_INTEGER_BITS :: nat where
  "LOG_INTEGER_BITS = 2"

definition log_fraction_bits :: nat where
  "log_fraction_bits = LOG_NUM_BITS - LOG_INTEGER_BITS"

type_synonym log_response_t = "16 word"

text \<open>The number a stored response stands for.\<close>

definition log_response_value :: "log_response_t \<Rightarrow> rat" where
  "log_response_value r = of_int (sint r) / 2 ^ log_fraction_bits"

text \<open>
  The conversion of a decimal literal \<open>num / den\<close> to the type: scale by
  \<open>2 ^ log_fraction_bits\<close>, round towards minus infinity (\<open>div\<close> on \<open>int\<close> does), keep
  the low 16 bits. The literals of the source are doubles; none of them scaled by
  \<open>2 ^ 14\<close> is closer to an integer than \<open>0.05\<close>, so that truncating the double and
  truncating the decimal give the same stored integer.
\<close>

definition ap_fixed_of_decimal :: "int \<Rightarrow> int \<Rightarrow> log_response_t" where
  "ap_fixed_of_decimal num den = word_of_int ((num * 2 ^ log_fraction_bits) div den)"

text \<open>\<^verbatim>\<open>static const log_response_t LOG_RESPONSE_THRESHOLD = 0.490 * 1.0;\<close>\<close>

definition LOG_RESPONSE_THRESHOLD :: log_response_t where
  "LOG_RESPONSE_THRESHOLD = ap_fixed_of_decimal 490 1000"

text \<open>
  Modelled from the spec: the header that declares \<^verbatim>\<open>BLOB_FILTER_HEIGHT\<close> and
  \<^verbatim>\<open>BLOB_FILTER_WIDTH\<close> is not among the sources. The specification fixes both to 5,
  and the initialiser of \<^verbatim>\<open>LOG_FILTER\<close> has 5 rows of 5 weights.
\<close>

definition BLOB_FILTER_HEIGHT :: nat where
  "BLOB_FILTER_HEIGHT = 5"

definition BLOB_FILTER_WIDTH :: nat where
  "BLOB_FILTER_WIDTH = 5"

text \<open>The kernel, row by row as in the source.\<close>

definition LOG_FILTER :: "log_response_t list list" where
  "LOG_FILTER = [
    [ap_fixed_of_decimal (-239) 10000, ap_fixed_of_decimal (-460) 10000,
     ap_fixed_of_decimal (-499) 10000, ap_fixed_of_decimal (-460) 10000,
     ap_fixed_of_decimal (-239) 10000],
    [ap_fixed_of_decimal (-460) 10000, ap_fixed_of_decimal (-61) 10000,
     ap_fixed_of_decimal 923 10000, ap_fixed_of_decimal (-61) 10000,
     ap_fixed_of_decimal (-460) 10000],
    [ap_fixed_of_decimal (-499) 10000, ap_fixed_of_decimal 923 10000,
     ap_fixed_of_decimal 3182 10000, ap_fixed_of_decimal 923 10000,
     ap_fixed_of_decimal (-499) 10000],
    [ap_fixed_of_decimal (-460) 10000, ap_fixed_of_decimal (-61) 10000,
     ap_fixed_of_decimal 923 10000, ap_fixed_of_decimal (-61) 10000,
     ap_fixed_of_decimal (-460) 10000],
    [ap_fixed_of_decimal (-239) 10000, ap_fixed_of_decimal (-460) 10000,
     ap_fixed_of_decimal (-499) 10000, ap_fixed_of_decimal (-460) 10000,
     ap_fixed_of_decimal (-239) 10000]]"

section \<open>Windows\<close>

text \<open>
  Modelled from the spec: the header that declares \<^verbatim>\<open>monochrome_window_t\<close> is not
  among the sources. The specification describes a window as a fixed 5 by 5 matrix of
  binary pixels. Here it is a list of rows of booleans; \<open>valid_window\<close> says that it
  has the dimensions of the kernel, and \<open>valid_offset\<close> that an offset lies in
  \<open>[0, K)\<close>, where \<open>K\<close> is the height of the kernel and its width.
\<close>

type_synonym monochrome_window_t = "bool list list"

definition valid_window :: "monochrome_window_t \<Rightarrow> bool" where
  "valid_window window \<longleftrightarrow>
     length window = BLOB_FILTER_HEIGHT \<and>
     list_all (\<lambda>r. length r = BLOB_FILTER_WIDTH) window"

definition valid_offset :: "int \<Rightarrow> bool" where
  "valid_offset s \<longleftrightarrow> 0 \<le> s \<and> s < int BLOB_FILTER_HEIGHT"

text \<open>
  The read \<^verbatim>\<open>window[row][col]\<close>. The indices are C \<^verbatim>\<open>int\<close>s; a read outside the
  array is undefined behaviour in the source, and \<open>None\<close> here.
\<close>

definition window_at :: "monochrome_window_t \<Rightarrow> int \<Rightarrow> int \<Rightarrow> bool option" where
  "window_at window row col =
     (if 0 \<le> row \<and> row < int (length window) then
        (if 0 \<le> col \<and> col < int (length (window ! nat row))
         then Some (window ! nat row ! nat col) else None)
      else None)"

section \<open>The filter\<close>

text \<open>
  \<^verbatim>\<open>int row = (start_row + i < BLOB_FILTER_HEIGHT) ? start_row + i : start_row + i - BLOB_FILTER_HEIGHT;\<close>
  and the same for the column. The offsets are C \<^verbatim>\<open>int\<close>s, modelled as \<open>int\<close>: an
  offset large enough for \<^verbatim>\<open>start_row + i\<close> to overflow gives a row far outside the
  window, which is \<open>None\<close> in \<open>window_at\<close> all the same.
\<close>

definition window_row :: "int \<Rightarrow> nat \<Rightarrow> int" where
  "window_row start_row i =
     (if start_row + int i < int BLOB_FILTER_HEIGHT then start_row + int i
      else start_row + int i - int BLOB_FILTER_HEIGHT)"

definition window_col :: "int \<Rightarrow> nat \<Rightarrow> int" where
  "window_col start_col j =
     (if start_col + int j < int BLOB_FILTER_WIDTH then start_col + int j
      else start_col + int j - int BLOB_FILTER_WIDTH)"

text \<open>
  The inner loop \<^verbatim>\<open>blob_detect_col\<close> over the columns \<open>js\<close> that are left, and the outer
  loop \<^verbatim>\<open>blob_detect_row\<close> over the rows that are left; \<open>response\<close> is the accumulator.
\<close>

fun blob_detect_col ::
  "monochrome_window_t \<Rightarrow> int \<Rightarrow> int \<Rightarrow> nat \<Rightarrow> nat list \<Rightarrow> log_response_t
     \<Rightarrow> log_response_t option" where
  "blob_detect_col window start_row start_col i [] response = Some response"
| "blob_detect_col window start_row start_col i (j # js) response =
     (let row = window_row start_row i;
          col = window_col start_col j
      in case window_at window row col of
           None \<Rightarrow> None
         | Some pixel \<Rightarrow>
             blob_detect_col window start_row start_col i js
               (if pixel then response + LOG_FILTER ! i ! j else response))"

fun blob_detect_row ::
  "monochrome_window_t \<Rightarrow> int \<Rightarrow> int \<Rightarrow> nat list \<Rightarrow> log_response_t
     \<Rightarrow> log_response_t option" where
  "blob_detect_row window start_row start_col [] response = Some response"
| "blob_detect_row window start_row start_col (i # is) response =
     (case blob_detect_col window start_row start_col i [0..<BLOB_FILTER_WIDTH] response of
        None \<Rightarrow> None
      | Some response' \<Rightarrow> blob_detect_row window start_row start_col is response')"

text \<open>The value of \<^verbatim>\<open>response\<close> when both loops are done.\<close>

definition log_response :: "monochrome_window_t \<Rightarrow> int \<Rightarrow> int \<Rightarrow> log_response_t option" where
  "log_response window start_row start_col =
     blob_detect_row window start_row start_col [0..<BLOB_FILTER_HEIGHT] 0"

definition compute_blob_detection :: "monochrome_window_t \<Rightarrow> int \<Rightarrow> int \<Rightarrow> bool option" where
  "compute_blob_detection window start_row start_col =
     (case log_response window start_row start_col of
        None \<Rightarrow> None
      | Some response \<Rightarrow> Some (sint LOG_RESPONSE_THRESHOLD \<le> sint response))"

section \<open>The response as a sum\<close>

text \<open>
  What one kernel tap adds to the response: the stored weight, read as a signed integer
  (in units of \<open>2 ^ - 14\<close>), where the pixel under the tap is on, and nothing where it
  is off. \<open>partial_response\<close> is the exact integer sum of the taps that the loops have
  visited when the outer loop is in row \<open>i\<close> and the inner loop is about to visit
  column \<open>j\<close>.
\<close>

definition tap :: "monochrome_window_t \<Rightarrow> int \<Rightarrow> int \<Rightarrow> nat \<Rightarrow> nat \<Rightarrow> int" where
  "tap window start_row start_col i j =
     (if window ! nat (window_row start_row i) ! nat (window_col start_col j)
      then sint (LOG_FILTER ! i ! j) else 0)"

definition partial_response :: "monochrome_window_t \<Rightarrow> int \<Rightarrow> int \<Rightarrow> nat \<Rightarrow> nat \<Rightarrow> int" where
  "partial_response window start_row start_col i j =
     (\<Sum>i'<i. \<Sum>j'<5. tap window start_row start_col i' j') +
     (\<Sum>j'<j. tap window start_row start_col i j')"

text \<open>The positive and the negative part of a weight, to bound the sums.\<close>

definition positive_part :: "nat \<Rightarrow> nat \<Rightarrow> int" where
  "positive_part i j = max 0 (sint (LOG_FILTER ! i ! j))"

definition negative_part :: "nat \<Rightarrow> nat \<Rightarrow> int" where
  "negative_part i j = min 0 (sint (LOG_FILTER ! i ! j))"

section \<open>Windows and images of the test scenarios\<close>

text \<open>The window that is off everywhere, and the window that is on everywhere.\<close>

definition zero_window :: monochrome_window_t where
  "zero_window = replicate 5 (replicate 5 False)"

definition ones_window :: monochrome_window_t where
  "ones_window = replicate 5 (replicate 5 True)"

text \<open>
  The peak-match window: on at the centre and at its four neighbours in the same row
  and column, off elsewhere.
\<close>

definition peak_window :: monochrome_window_t where
  "peak_window =
     [[False, False, False, False, False],
      [False, False, True, False, False],
      [False, True, True, True, False],
      [False, False, True, False, False],
      [False, False, False, False, False]]"

text \<open>The peak-match window as a ring buffer holds it when the offsets are \<open>(3, 1)\<close>.\<close>

definition wrapped_peak_window :: monochrome_window_t where
  "wrapped_peak_window =
     [[False, False, True, True, True],
      [False, False, False, True, False],
      [False, False, False, False, False],
      [False, False, False, False, False],
      [False, False, False, True, False]]"

text \<open>
  The window shifted up by \<open>start_row\<close> rows and left by \<open>start_col\<close> columns, cyclically:
  its pixel \<open>(i, j)\<close> is the pixel \<open>((start_row + i) mod 5, (start_col + j) mod 5)\<close> of
  the window.
\<close>

definition shift_window :: "monochrome_window_t \<Rightarrow> int \<Rightarrow> int \<Rightarrow> monochrome_window_t" where
  "shift_window window start_row start_col =
     map (\<lambda>i. map (\<lambda>j. window ! nat ((start_row + int i) mod int BLOB_FILTER_HEIGHT)
                                ! nat ((start_col + int j) mod int BLOB_FILTER_WIDTH))
                 [0..<BLOB_FILTER_WIDTH])
         [0..<BLOB_FILTER_HEIGHT]"

text \<open>
  Turning the pixel \<open>(r, c)\<close> of a window on, and the kernel index whose tap reads the
  window index \<open>r\<close> when the offset is \<open>s\<close>.
\<close>

definition set_pixel :: "monochrome_window_t \<Rightarrow> nat \<Rightarrow> nat \<Rightarrow> monochrome_window_t" where
  "set_pixel window r c = window[r := (window ! r)[c := True]]"

definition kernel_index :: "int \<Rightarrow> nat \<Rightarrow> nat" where
  "kernel_index s r = nat ((int r - s) mod int BLOB_FILTER_HEIGHT)"

text \<open>
  Modelled from the spec: the window source and the raster driver are not among the
  sources. The specification describes them as producing, for every coordinate of the
  image, in raster order, the window around that coordinate, and calling the filter on
  it with offsets \<open>(0, 0)\<close>. Here the window is centred on the coordinate and a pixel
  outside the image reads as off.
\<close>

type_synonym monochrome_image_t = "bool list list"

definition image_at :: "monochrome_image_t \<Rightarrow> int \<Rightarrow> int \<Rightarrow> bool" where
  "image_at img row col =
     (if 0 \<le> row \<and> row < int (length img) \<and> 0 \<le> col \<and> col < int (length (img ! nat row))
      then img ! nat row ! nat col else False)"

definition fetch_window :: "monochrome_image_t \<Rightarrow> nat \<Rightarrow> nat \<Rightarrow> monochrome_window_t" where
  "fetch_window img r c =
     map (\<lambda>i. map (\<lambda>j. image_at img (int r + int i - 2) (int c + int j - 2))
                 [0..<BLOB_FILTER_WIDTH])
         [0..<BLOB_FILTER_HEIGHT]"

definition blob_scan :: "monochrome_image_t \<Rightarrow> bool option list list" where
  "blob_scan img =
     map (\<lambda>r. map (\<lambda>c. compute_blob_detection (fetch_window img r c) 0 0)
                 [0..<length (img ! r)])
         [0..<length img]"

text \<open>The 7 by 7 image with the 5 by 5 square of on pixels centred at \<open>(3, 3)\<close>.\<close>

definition square_image :: monochrome_image_t where
  "square_image =
     map (\<lambda>r. map (\<lambda>c. 1 \<le> r \<and> r \<le> 5 \<and> 1 \<le> c \<and> c \<le> (5::nat)) [0..<7]) [0..<(7::nat)]"

section \<open>Auxiliary facts\<close>

lemmas filter_consts =
  LOG_FILTER_def ap_fixed_of_decimal_def log_fraction_bits_def LOG_NUM_BITS_def
  LOG_INTEGER_BITS_def

lemma less_5_cases: "i < (5::nat) \<Longrightarrow> i = 0 \<or> i = 1 \<or> i = 2 \<or> i = 3 \<or> i = 4"
  by arith

lemma window_row_bounds:
  "0 \<le> s \<Longrightarrow> s \<le> 5 \<Longrightarrow> i < 5 \<Longrightarrow> 0 \<le> window_row s i \<and> window_row s i < 5"
  by (simp add: window_row_def BLOB_FILTER_HEIGHT_def)

lemma window_col_bounds:
  "0 \<le> s \<Longrightarrow> s \<le> 5 \<Longrightarrow> j < 5 \<Longrightarrow> 0 \<le> window_col s j \<and> window_col s j < 5"
  by (simp add: window_col_def BLOB_FILTER_WIDTH_def)

lemma window_row_mod:
  "0 \<le> s \<Longrightarrow> s \<le> 5 \<Longrightarrow> i < 5 \<Longrightarrow> window_row s i = (s + int i) mod 5"
  unfolding window_row_def BLOB_FILTER_HEIGHT_def by auto presburger+

lemma window_col_mod:
  "0 \<le> s \<Longrightarrow> s \<le> 5 \<Longrightarrow> j < 5 \<Longrightarrow> window_col s j = (s + int j) mod 5"
  unfolding window_col_def BLOB_FILTER_WIDTH_def by auto presburger+

lemma window_at_valid:
  assumes "valid_window window" "0 \<le> row" "row < 5" "0 \<le> col" "col < 5"
  shows "window_at window row col = Some (window ! nat row ! nat col)"
proof -
  from assms have len: "length window = 5" and rows: "\<forall>r \<in> set window. length r = 5"
    by (simp_all add: valid_window_def BLOB_FILTER_HEIGHT_def BLOB_FILTER_WIDTH_def list_all_iff)
  from assms len have "nat row < length window" by simp
  with rows have "length (window ! nat row) = 5" by simp
  with assms len show ?thesis by (simp add: window_at_def)
qed

lemma blob_detect_col_sum:
  assumes "valid_window window" "0 \<le> start_row" "start_row \<le> 5"
    "0 \<le> start_col" "start_col \<le> 5" "i < 5"
  shows "\<forall>j \<in> set js. j < 5 \<Longrightarrow>
    blob_detect_col window start_row start_col i js response =
      Some (response + word_of_int (\<Sum>j\<leftarrow>js. tap window start_row start_col i j))"
proof (induction js arbitrary: response)
  case Nil
  then show ?case by simp
next
  case (Cons j js)
  then have j: "j < 5" by simp
  have at: "window_at window (window_row start_row i) (window_col start_col j) =
      Some (window ! nat (window_row start_row i) ! nat (window_col start_col j))"
    using assms j by (intro window_at_valid) (simp_all add: window_row_bounds window_col_bounds)
  show ?case using Cons by (simp add: at tap_def)
qed

lemma blob_detect_row_sum:
  assumes "valid_window window" "0 \<le> start_row" "start_row \<le> 5"
    "0 \<le> start_col" "start_col \<le> 5"
  shows "\<forall>i \<in> set rows. i < 5 \<Longrightarrow>
    blob_detect_row window start_row start_col rows response =
      Some (response + word_of_int
        (\<Sum>i\<leftarrow>rows. \<Sum>j\<leftarrow>[0..<5]. tap window start_row start_col i j))"
proof (induction rows arbitrary: response)
  case Nil
  then show ?case by simp
next
  case (Cons i rows)
  then have i: "i < 5" by simp
  have "blob_detect_col window start_row start_col i [0..<5] response =
      Some (response + word_of_int (\<Sum>j\<leftarrow>[0..<5]. tap window start_row start_col i j))"
    using assms i by (intro blob_detect_col_sum) simp_all
  then show ?case using Cons by (simp add: BLOB_FILTER_WIDTH_def)
qed

lemma LOG_FILTER_eq:
  "LOG_FILTER =
    [[- 392, - 754, - 818, - 754, - 392], [- 754, - 100, 1512, - 100, - 754],
     [- 818, 1512, 5213, 1512, - 818], [- 754, - 100, 1512, - 100, - 754],
     [- 392, - 754, - 818, - 754, - 392]]"
  by (simp add: filter_consts)

lemma LOG_RESPONSE_THRESHOLD_eq: "LOG_RESPONSE_THRESHOLD = 8028"
  by (simp add: LOG_RESPONSE_THRESHOLD_def filter_consts)

lemma LOG_RESPONSE_THRESHOLD_int: "sint LOG_RESPONSE_THRESHOLD = 8028"
  by (simp add: LOG_RESPONSE_THRESHOLD_eq)

lemma sum_below_5: "(\<Sum>i<5. f i) = f 0 + f 1 + f 2 + f 3 + f 4" for f :: "nat \<Rightarrow> int"
  by (simp add: eval_nat_numeral lessThan_Suc)

lemma positive_part_total: "(\<Sum>i<5. \<Sum>j<5. positive_part i j) = 11261"
  by (simp add: positive_part_def LOG_FILTER_eq sum_below_5)

lemma negative_part_total: "(\<Sum>i<5. \<Sum>j<5. negative_part i j) = - 11272"
  by (simp add: negative_part_def LOG_FILTER_eq sum_below_5)

lemma tap_le_positive_part: "tap window start_row start_col i j \<le> positive_part i j"
  by (simp add: tap_def positive_part_def)

lemma negative_part_le_tap: "negative_part i j \<le> tap window start_row start_col i j"
  by (simp add: tap_def negative_part_def)

lemma partial_response_upper:
  assumes "i < 5" "j \<le> 5"
  shows "partial_response window start_row start_col i j \<le> 11261"
proof -
  let ?H = "\<lambda>i. \<Sum>j<5. positive_part i j"
  have nonneg: "0 \<le> positive_part a b" for a b by (simp add: positive_part_def)
  have "partial_response window start_row start_col i j \<le>
      (\<Sum>i'<i. ?H i') + (\<Sum>j'<j. positive_part i j')"
    unfolding partial_response_def
    by (intro add_mono sum_mono tap_le_positive_part)
  also have "(\<Sum>j'<j. positive_part i j') \<le> ?H i"
    using assms by (intro sum_mono2) (auto simp: nonneg)
  then have "(\<Sum>i'<i. ?H i') + (\<Sum>j'<j. positive_part i j') \<le> (\<Sum>i'<Suc i. ?H i')"
    by simp
  also have "(\<Sum>i'<Suc i. ?H i') \<le> (\<Sum>i'<5. ?H i')"
    using assms by (intro sum_mono2) (auto simp: nonneg sum_nonneg)
  finally show ?thesis by (simp add: positive_part_total)
qed

lemma partial_response_lower:
  assumes "i < 5" "j \<le> 5"
  shows "- 11272 \<le> partial_response window start_row start_col i j"
proof -
  let ?H = "\<lambda>i. \<Sum>j<5. negative_part i j"
  have nonpos: "negative_part a b \<le> 0" for a b by (simp add: negative_part_def)
  have "(\<Sum>i'<5. ?H i') \<le> (\<Sum>i'<Suc i. ?H i')"
    using assms by (intro sum_mono2[where f = "\<lambda>i. - ?H i", simplified sum_negf neg_le_iff_le])
       (auto simp: nonpos sum_nonpos)
  also have "?H i \<le> (\<Sum>j'<j. negative_part i j')"
    using assms by (intro sum_mono2[where f = "\<lambda>j. - negative_part i j", simplified sum_negf neg_le_iff_le])
       (auto simp: nonpos)
  then have "(\<Sum>i'<Suc i. ?H i') \<le> (\<Sum>i'<i. ?H i') + (\<Sum>j'<j. negative_part i j')"
    by simp
  also have "\<dots> \<le> partial_response window start_row start_col i j"
    unfolding partial_response_def
    by (intro add_mono sum_mono negative_part_le_tap)
  finally show ?thesis by (simp add: negative_part_total)
qed

lemma sint_response_of_int:
  "- 11272 \<le> x \<Longrightarrow> x \<le> 11261 \<Longrightarrow> sint (word_of_int x :: log_response_t) = x"
  by (simp add: sint_sbintrunc' signed_take_bit_int_eq_self)

lemma partial_response_sint:
  "i < 5 \<Longrightarrow> j \<le> 5 \<Longrightarrow>
   sint (word_of_int (partial_response window start_row start_col i j) :: log_response_t) =
     partial_response window start_row start_col i j"
  by (intro sint_response_of_int partial_response_lower partial_response_upper)

lemma partial_response_full:
  "partial_response window start_row start_col 4 5 =
     (\<Sum>i<5. \<Sum>j<5. tap window start_row start_col i j)"
proof -
  have "{..<5::nat} = insert 4 {..<4}" by auto
  then show ?thesis by (simp add: partial_response_def)
qed

lemma sum_list_upt: "(\<Sum>i\<leftarrow>[0..<n]. f i) = (\<Sum>i<n. f i)" for f :: "nat \<Rightarrow> int"
  by (simp add: interv_sum_list_conv_sum_set_nat atLeast0LessThan)

lemma log_response_sum:
  assumes "valid_window window" "0 \<le> start_row" "start_row \<le> 5"
    "0 \<le> start_col" "start_col \<le> 5"
  shows "log_response window start_row start_col =
    Some (word_of_int (\<Sum>i<5. \<Sum>j<5. tap window start_row start_col i j))"
  using blob_detect_row_sum [OF assms, of "[0..<5]" 0]
  by (simp add: log_response_def BLOB_FILTER_HEIGHT_def sum_list_upt)

lemma log_response_sint:
  assumes "valid_window window" "0 \<le> start_row" "start_row \<le> 5"
    "0 \<le> start_col" "start_col \<le> 5"
  shows "\<exists>response. log_response window start_row start_col = Some response \<and>
    sint response = (\<Sum>i<5. \<Sum>j<5. tap window start_row start_col i j)"
  using log_response_sum [OF assms]
    partial_response_sint [of 4 5 window start_row start_col]
  by (simp add: partial_response_full)

lemma valid_offset_bounds: "valid_offset s \<Longrightarrow> 0 \<le> s \<and> s \<le> 5 \<and> s < 5"
  by (simp add: valid_offset_def BLOB_FILTER_HEIGHT_def)

lemma tap_mod:
  "0 \<le> start_row \<Longrightarrow> start_row \<le> 5 \<Longrightarrow> 0 \<le> start_col \<Longrightarrow> start_col \<le> 5 \<Longrightarrow>
   i < 5 \<Longrightarrow> j < 5 \<Longrightarrow>
   tap window start_row start_col i j =
     (if window ! nat ((start_row + int i) mod 5) ! nat ((start_col + int j) mod 5)
      then sint (LOG_FILTER ! i ! j) else 0)"
  by (simp add: tap_def window_row_mod window_col_mod)

lemma compute_blob_detection_sum:
  assumes "valid_window window" "0 \<le> start_row" "start_row \<le> 5"
    "0 \<le> start_col" "start_col \<le> 5"
  shows "compute_blob_detection window start_row start_col =
    Some (sint LOG_RESPONSE_THRESHOLD \<le> (\<Sum>i<5. \<Sum>j<5. tap window start_row start_col i j))"
  using log_response_sint [OF assms] by (auto simp: compute_blob_detection_def)

section \<open>The decision is the thresholded sum of the taps\<close>

text \<open>
  Claim C1. For every 5 by 5 window and offsets in \<open>[0, 5)\<close>, the filter returns a
  decision, and the decision is true exactly when the sum of the stored kernel weights
  \<open>LOG_FILTER[i][j]\<close>, over the kernel indices \<open>(i, j)\<close> whose window pixel
  \<open>((start_row + i) mod 5, (start_col + j) mod 5)\<close> is on, is at least the stored
  threshold. The sum is the exact integer sum of the weights in units of \<open>2 ^ - 14\<close>.
  The conditional subtraction of the source computes \<open>(start_row + i) mod 5\<close> and
  \<open>(start_col + j) mod 5\<close>.
\<close>

theorem compute_blob_detection_threshold_sum:
  assumes "valid_window window" "valid_offset start_row" "valid_offset start_col"
  shows "compute_blob_detection window start_row start_col =
      Some (sint LOG_RESPONSE_THRESHOLD \<le>
        (\<Sum>i<BLOB_FILTER_HEIGHT. \<Sum>j<BLOB_FILTER_WIDTH.
           if window ! nat ((start_row + int i) mod int BLOB_FILTER_HEIGHT)
                     ! nat ((start_col + int j) mod int BLOB_FILTER_WIDTH)
           then sint (LOG_FILTER ! i ! j) else 0))
    \<and> (\<forall>i<BLOB_FILTER_HEIGHT.
          window_row start_row i = (start_row + int i) mod int BLOB_FILTER_HEIGHT)
    \<and> (\<forall>j<BLOB_FILTER_WIDTH.
          window_col start_col j = (start_col + int j) mod int BLOB_FILTER_WIDTH)"
proof -
  note r = valid_offset_bounds [OF assms(2)] and c = valid_offset_bounds [OF assms(3)]
  have "(\<Sum>i<5. \<Sum>j<5. tap window start_row start_col i j) =
      (\<Sum>i<5. \<Sum>j<5.
         if window ! nat ((start_row + int i) mod 5) ! nat ((start_col + int j) mod 5)
         then sint (LOG_FILTER ! i ! j) else 0)"
    using r c by (intro sum.cong refl tap_mod) simp_all
  then show ?thesis
    using compute_blob_detection_sum [of window start_row start_col] assms(1) r c
    by (simp add: BLOB_FILTER_HEIGHT_def BLOB_FILTER_WIDTH_def window_row_mod window_col_mod)
qed

theorem compute_blob_detection_threshold_sum_witness:
  "valid_window wrapped_peak_window \<and> valid_offset 3 \<and> valid_offset 1
   \<and> compute_blob_detection wrapped_peak_window 3 1 = Some True
   \<and> window_row 3 2 = 0 \<and> window_col 1 4 = 0"
  using compute_blob_detection_threshold_sum [of wrapped_peak_window 3 1]
  by (simp add: valid_window_def valid_offset_def wrapped_peak_window_def
      BLOB_FILTER_HEIGHT_def BLOB_FILTER_WIDTH_def LOG_RESPONSE_THRESHOLD_eq LOG_FILTER_eq
      sum_below_5)

section \<open>Every read of the window is in bounds\<close>

text \<open>
  Claim C9. With offsets in \<open>[0, 5)\<close> and kernel indices \<open>i, j\<close> in \<open>[0, 5)\<close>, the row
  and the column that the filter computes lie in \<open>[0, 5)\<close>, the read of a 5 by 5 window
  at them is not out of bounds, and the loops never take the out-of-bounds branch: the
  response is computed.
\<close>

theorem window_reads_in_bounds:
  assumes "valid_window window" "valid_offset start_row" "valid_offset start_col"
    "i < BLOB_FILTER_HEIGHT" "j < BLOB_FILTER_WIDTH"
  shows "0 \<le> window_row start_row i \<and> window_row start_row i < int BLOB_FILTER_HEIGHT
    \<and> 0 \<le> window_col start_col j \<and> window_col start_col j < int BLOB_FILTER_WIDTH
    \<and> window_at window (window_row start_row i) (window_col start_col j) \<noteq> None
    \<and> log_response window start_row start_col \<noteq> None"
proof -
  note r = valid_offset_bounds [OF assms(2)] and c = valid_offset_bounds [OF assms(3)]
  from assms have i: "i < 5" and j: "j < 5"
    by (simp_all add: BLOB_FILTER_HEIGHT_def BLOB_FILTER_WIDTH_def)
  have rb: "0 \<le> window_row start_row i \<and> window_row start_row i < 5"
    using r i by (simp add: window_row_bounds)
  have cb: "0 \<le> window_col start_col j \<and> window_col start_col j < 5"
    using c j by (simp add: window_col_bounds)
  have "window_at window (window_row start_row i) (window_col start_col j) \<noteq> None"
    using window_at_valid [OF assms(1), of "window_row start_row i" "window_col start_col j"] rb cb
    by simp
  moreover have "log_response window start_row start_col \<noteq> None"
    using log_response_sum [of window start_row start_col] assms(1) r c by simp
  ultimately show ?thesis
    using rb cb by (simp add: BLOB_FILTER_HEIGHT_def BLOB_FILTER_WIDTH_def)
qed

theorem window_reads_in_bounds_witness:
  "valid_window wrapped_peak_window \<and> valid_offset 4 \<and> valid_offset 2
   \<and> window_row 4 4 = 3 \<and> window_col 2 3 = 0
   \<and> window_at wrapped_peak_window (window_row 4 4) (window_col 2 3) = Some False
   \<and> log_response wrapped_peak_window 4 2 \<noteq> None"
  using window_reads_in_bounds [of wrapped_peak_window 4 2 4 3]
  by (simp add: valid_window_def valid_offset_def wrapped_peak_window_def
      BLOB_FILTER_HEIGHT_def BLOB_FILTER_WIDTH_def window_row_def window_col_def window_at_def)

section \<open>The window that is off everywhere\<close>

lemma log_response_value_eq: "log_response_value r = of_int (sint r) / 16384"
  by (simp add: log_response_value_def log_fraction_bits_def LOG_NUM_BITS_def LOG_INTEGER_BITS_def)

lemma valid_zero_window: "valid_window zero_window"
  by (simp add: valid_window_def zero_window_def BLOB_FILTER_HEIGHT_def BLOB_FILTER_WIDTH_def
      list_all_iff)

lemma valid_peak_window: "valid_window peak_window"
  by (simp add: valid_window_def peak_window_def BLOB_FILTER_HEIGHT_def BLOB_FILTER_WIDTH_def)

lemma valid_wrapped_peak_window: "valid_window wrapped_peak_window"
  by (simp add: valid_window_def wrapped_peak_window_def BLOB_FILTER_HEIGHT_def
      BLOB_FILTER_WIDTH_def)

lemma tap_zero_window:
  assumes "0 \<le> start_row" "start_row \<le> 5" "0 \<le> start_col" "start_col \<le> 5" "i < 5" "j < 5"
  shows "tap zero_window start_row start_col i j = 0"
proof -
  have "nat (window_row start_row i) < 5" "nat (window_col start_col j) < 5"
    using assms window_row_bounds [of start_row i] window_col_bounds [of start_col j]
    by (simp_all add: nat_less_iff)
  then show ?thesis by (simp add: tap_def zero_window_def)
qed

text \<open>
  Claim C6. For the 5 by 5 window that is off everywhere and offsets in \<open>[0, 5)\<close>, the
  response is 0, which is below \<open>0.49\<close> and below the stored threshold, and the filter
  returns false.
\<close>

theorem zero_window_response:
  assumes "valid_offset start_row" "valid_offset start_col"
  shows "log_response zero_window start_row start_col = Some 0
    \<and> log_response_value 0 = 0
    \<and> log_response_value 0 < 49 / 100
    \<and> log_response_value 0 < log_response_value LOG_RESPONSE_THRESHOLD
    \<and> compute_blob_detection zero_window start_row start_col = Some False"
proof -
  note r = valid_offset_bounds [OF assms(1)] and c = valid_offset_bounds [OF assms(2)]
  have "(\<Sum>i<5. \<Sum>j<5. tap zero_window start_row start_col i j) = 0"
    using r c by (intro sum.neutral ballI) (simp add: tap_zero_window)
  then have "log_response zero_window start_row start_col = Some 0"
    using log_response_sum [OF valid_zero_window, of start_row start_col] r c by simp
  then show ?thesis
    by (simp add: compute_blob_detection_def log_response_value_eq LOG_RESPONSE_THRESHOLD_eq)
qed

theorem zero_window_response_witness:
  "valid_offset 4 \<and> valid_offset 2
   \<and> log_response zero_window 4 2 = Some 0
   \<and> compute_blob_detection zero_window 4 2 = Some False"
  using zero_window_response [of 4 2]
  by (simp add: valid_offset_def BLOB_FILTER_HEIGHT_def)

section \<open>The offsets rotate the window\<close>

lemma valid_shift_window: "valid_window (shift_window window start_row start_col)"
  by (simp add: valid_window_def shift_window_def list_all_iff)

lemma tap_shift_window:
  assumes "0 \<le> start_row" "start_row \<le> 5" "0 \<le> start_col" "start_col \<le> 5" "i < 5" "j < 5"
  shows "tap (shift_window window start_row start_col) 0 0 i j = tap window start_row start_col i j"
  using assms
  by (simp add: tap_def shift_window_def window_row_mod window_col_mod
      BLOB_FILTER_HEIGHT_def BLOB_FILTER_WIDTH_def)

text \<open>
  Claim C10. For every 5 by 5 window and offsets in \<open>[0, 5)\<close>, the filter at the offsets
  returns what it returns at offsets \<open>(0, 0)\<close> on the window shifted cyclically up by
  \<open>start_row\<close> rows and left by \<open>start_col\<close> columns.
\<close>

theorem compute_blob_detection_shift:
  assumes "valid_window window" "valid_offset start_row" "valid_offset start_col"
  shows "compute_blob_detection window start_row start_col =
    compute_blob_detection (shift_window window start_row start_col) 0 0"
proof -
  note r = valid_offset_bounds [OF assms(2)] and c = valid_offset_bounds [OF assms(3)]
  have "(\<Sum>i<5. \<Sum>j<5. tap (shift_window window start_row start_col) 0 0 i j) =
      (\<Sum>i<5. \<Sum>j<5. tap window start_row start_col i j)"
    using r c by (intro sum.cong refl tap_shift_window) simp_all
  then show ?thesis
    using compute_blob_detection_sum [OF assms(1), of start_row start_col] r c
      compute_blob_detection_sum [OF valid_shift_window, of 0 0 window start_row start_col]
    by simp
qed

theorem compute_blob_detection_shift_witness:
  "valid_window wrapped_peak_window \<and> valid_offset 3 \<and> valid_offset 1
   \<and> shift_window wrapped_peak_window 3 1 = peak_window
   \<and> compute_blob_detection wrapped_peak_window 3 1 = compute_blob_detection peak_window 0 0"
proof -
  have s: "shift_window wrapped_peak_window 3 1 = peak_window"
    by (simp add: shift_window_def wrapped_peak_window_def peak_window_def
        BLOB_FILTER_HEIGHT_def BLOB_FILTER_WIDTH_def upt_rec)
  show ?thesis
    using compute_blob_detection_shift [of wrapped_peak_window 3 1]
    by (simp add: s valid_wrapped_peak_window valid_offset_def BLOB_FILTER_HEIGHT_def)
qed

section \<open>No validation of the inputs\<close>

lemma window_row_mod_offset:
  "0 \<le> s \<Longrightarrow> s \<le> 5 \<Longrightarrow> i < 5 \<Longrightarrow> window_row (s mod 5) i = window_row s i"
  by (simp add: window_row_mod mod_simps)

lemma window_col_mod_offset:
  "0 \<le> s \<Longrightarrow> s \<le> 5 \<Longrightarrow> j < 5 \<Longrightarrow> window_col (s mod 5) j = window_col s j"
  by (simp add: window_col_mod mod_simps)

text \<open>
  Claim C4, as amended. The filter validates nothing. On a 5 by 5 window with offsets
  in \<open>[0, 5)\<close> it always returns a decision. An offset equal to 5 is accepted as well:
  every read stays inside the window, and the decision is the one for the offset 0.
\<close>

theorem compute_blob_detection_accepts:
  assumes "valid_window window"
    "0 \<le> start_row" "start_row \<le> int BLOB_FILTER_HEIGHT"
    "0 \<le> start_col" "start_col \<le> int BLOB_FILTER_WIDTH"
  shows "compute_blob_detection window start_row start_col \<noteq> None
    \<and> compute_blob_detection window start_row start_col =
        compute_blob_detection window (start_row mod int BLOB_FILTER_HEIGHT)
          (start_col mod int BLOB_FILTER_WIDTH)"
proof -
  from assms have r: "0 \<le> start_row" "start_row \<le> 5" and c: "0 \<le> start_col" "start_col \<le> 5"
    by (simp_all add: BLOB_FILTER_HEIGHT_def BLOB_FILTER_WIDTH_def)
  have "tap window (start_row mod 5) (start_col mod 5) i j = tap window start_row start_col i j"
    if "i < 5" "j < 5" for i j
    using that r c by (simp add: tap_def window_row_mod_offset window_col_mod_offset)
  then have "(\<Sum>i<5. \<Sum>j<5. tap window (start_row mod 5) (start_col mod 5) i j) =
      (\<Sum>i<5. \<Sum>j<5. tap window start_row start_col i j)"
    by (intro sum.cong refl) simp_all
  then show ?thesis
    using compute_blob_detection_sum [OF assms(1) r c]
      compute_blob_detection_sum [OF assms(1), of "start_row mod 5" "start_col mod 5"]
    by (simp add: BLOB_FILTER_HEIGHT_def BLOB_FILTER_WIDTH_def)
qed

lemma log_response_peak_5_5: "log_response peak_window 5 5 = Some 11261"
  by (simp add: log_response_def peak_window_def BLOB_FILTER_HEIGHT_def BLOB_FILTER_WIDTH_def
      upt_rec window_row_def window_col_def window_at_def LOG_FILTER_eq)

theorem compute_blob_detection_accepts_witness:
  "valid_window peak_window \<and> (0::int) \<le> 5 \<and> 5 \<le> int BLOB_FILTER_HEIGHT
   \<and> (0::int) \<le> 2 \<and> 2 \<le> int BLOB_FILTER_WIDTH
   \<and> 5 mod int BLOB_FILTER_HEIGHT = 0 \<and> 2 mod int BLOB_FILTER_WIDTH = 2
   \<and> compute_blob_detection peak_window 5 2 \<noteq> None
   \<and> compute_blob_detection peak_window 5 2 =
       compute_blob_detection peak_window (5 mod int BLOB_FILTER_HEIGHT)
         (2 mod int BLOB_FILTER_WIDTH)"
proof -
  have h: "valid_window peak_window" "(0::int) \<le> 5" "5 \<le> int BLOB_FILTER_HEIGHT"
    "(0::int) \<le> 2" "2 \<le> int BLOB_FILTER_WIDTH"
    by (simp_all add: valid_peak_window BLOB_FILTER_HEIGHT_def BLOB_FILTER_WIDTH_def)
  have m: "5 mod int BLOB_FILTER_HEIGHT = 0" "2 mod int BLOB_FILTER_WIDTH = 2"
    by (simp_all add: BLOB_FILTER_HEIGHT_def BLOB_FILTER_WIDTH_def)
  from compute_blob_detection_accepts [OF h] h m show ?thesis by blast
qed

text \<open>
  Claim C4 as stated fails: with both offsets equal to 5 the filter does not reject the
  call; on the peak-match window it returns true.
\<close>

theorem offset_equal_to_size_not_rejected:
  "valid_window peak_window \<and> compute_blob_detection peak_window 5 5 = Some True"
  by (simp add: compute_blob_detection_def log_response_peak_5_5 LOG_RESPONSE_THRESHOLD_eq
      valid_peak_window)

section \<open>The peak-match window\<close>

lemma log_response_peak_0_0: "log_response peak_window 0 0 = Some 11261"
  by (simp add: log_response_def peak_window_def BLOB_FILTER_HEIGHT_def BLOB_FILTER_WIDTH_def
      upt_rec window_row_def window_col_def window_at_def LOG_FILTER_eq)

text \<open>
  Claim C5, as amended. For the peak-match window with offsets \<open>(0, 0)\<close> the response is
  the sum of the five stored weights at the centre and at the four cross positions.
  The stored weights are the literals \<open>0.3182\<close> and \<open>0.0923\<close> truncated to 14 fractional
  bits, \<open>5213 / 2 ^ 14\<close> and \<open>1512 / 2 ^ 14\<close>, so that the response is \<open>11261 / 2 ^ 14\<close>:
  below \<open>0.6874\<close> by less than \<open>2 / 2 ^ 14\<close>. It is at least the stored threshold
  \<open>8028 / 2 ^ 14\<close>, and the filter returns true.
\<close>

theorem peak_window_response:
  "log_response peak_window 0 0 =
     Some (LOG_FILTER ! 2 ! 2 + LOG_FILTER ! 1 ! 2 + LOG_FILTER ! 2 ! 1 + LOG_FILTER ! 2 ! 3
       + LOG_FILTER ! 3 ! 2)
   \<and> log_response_value (LOG_FILTER ! 2 ! 2) = 5213 / 2 ^ 14
   \<and> log_response_value (LOG_FILTER ! 1 ! 2) = 1512 / 2 ^ 14
   \<and> log_response_value (LOG_FILTER ! 2 ! 1) = 1512 / 2 ^ 14
   \<and> log_response_value (LOG_FILTER ! 2 ! 3) = 1512 / 2 ^ 14
   \<and> log_response_value (LOG_FILTER ! 3 ! 2) = 1512 / 2 ^ 14
   \<and> map_option log_response_value (log_response peak_window 0 0) = Some (11261 / 2 ^ 14)
   \<and> 6874 / 10000 - 2 / 2 ^ 14 < (11261 / 2 ^ 14 :: rat)
   \<and> (11261 / 2 ^ 14 :: rat) < 6874 / 10000
   \<and> log_response_value LOG_RESPONSE_THRESHOLD = 8028 / 2 ^ 14
   \<and> compute_blob_detection peak_window 0 0 = Some True"
  by (simp add: log_response_peak_0_0 compute_blob_detection_def log_response_value_eq
      LOG_FILTER_eq LOG_RESPONSE_THRESHOLD_eq)

text \<open>
  Claim C5 as stated fails: the response on the peak-match window is not \<open>0.6874\<close>.
\<close>

theorem peak_window_response_not_6874:
  "map_option log_response_value (log_response peak_window 0 0) \<noteq> Some (6874 / 10000)"
  by (simp add: log_response_peak_0_0 log_response_value_eq)

section \<open>The format of the response type\<close>

text \<open>
  Claim C3 says that a response has 1 integer bit and 16 fractional bits, 18 bits in
  all, and a resolution of \<open>2 ^ - 16\<close>, as the comments of the source do. The type that
  the source declares is 16 bits wide, 2 of them left of the binary point (the sign
  and one integer bit) and 14 right of it: its values range from \<open>- 2\<close> to
  \<open>2 - 2 ^ - 14\<close> in steps of \<open>2 ^ - 14\<close>. The centre weight \<open>0.3182\<close> is stored as
  \<open>5213 / 2 ^ 14\<close>, and not as \<open>20853 / 2 ^ 16\<close>, its truncation to 16 fractional bits;
  the response on the peak-match window is \<open>45044 / 2 ^ 16\<close>, and not the sum
  \<open>45045 / 2 ^ 16\<close> of the five weights truncated to 16 fractional bits.
\<close>

theorem log_response_t_format:
  "LOG_NUM_BITS = 16 \<and> LOG_INTEGER_BITS = 2
   \<and> size (0 :: log_response_t) = LOG_NUM_BITS
   \<and> log_fraction_bits = 14
   \<and> log_response_value 1 = 1 / 2 ^ 14
   \<and> log_response_value (- 32768) = - 2
   \<and> log_response_value 32767 = 2 - 1 / 2 ^ 14
   \<and> log_response_value (LOG_FILTER ! 2 ! 2) = 5213 / 2 ^ 14
   \<and> log_response_value (LOG_FILTER ! 2 ! 2) \<noteq> 20853 / 2 ^ 16
   \<and> map_option log_response_value (log_response peak_window 0 0) = Some (45044 / 2 ^ 16)
   \<and> map_option log_response_value (log_response peak_window 0 0) \<noteq> Some (45045 / 2 ^ 16)"
  by (simp add: log_response_value_eq LOG_FILTER_eq log_fraction_bits_def LOG_NUM_BITS_def
      LOG_INTEGER_BITS_def word_size log_response_peak_0_0)

section \<open>The scan of the square image\<close>

lemma upt_0_7: "[0..<7] = [0, 1, 2, 3, 4, 5, 6]"
  by (simp add: upt_rec)

lemma upt_0_5: "[0..<5] = [0, 1, 2, 3, 4]"
  by (simp add: upt_rec)

lemma replicate_5: "replicate 5 x = [x, x, x, x, x]"
  by (simp add: eval_nat_numeral)

lemma replicate_7: "replicate 7 x = [x, x, x, x, x, x, x]"
  by (simp add: eval_nat_numeral)

lemma valid_fetch_window: "valid_window (fetch_window img r c)"
  by (simp add: valid_window_def fetch_window_def list_all_iff)

lemma tap_fetch_window:
  "i < 5 \<Longrightarrow> j < 5 \<Longrightarrow>
   tap (fetch_window img r c) 0 0 i j =
     (if image_at img (int r + int i - 2) (int c + int j - 2)
      then sint (LOG_FILTER ! i ! j) else 0)"
  by (simp add: tap_def fetch_window_def window_row_def window_col_def
      BLOB_FILTER_HEIGHT_def BLOB_FILTER_WIDTH_def)

lemma compute_blob_detection_fetch_window:
  "compute_blob_detection (fetch_window img r c) 0 0 =
     Some (8028 \<le> (\<Sum>i<5. \<Sum>j<5.
       if image_at img (int r + int i - 2) (int c + int j - 2)
       then sint (LOG_FILTER ! i ! j) else 0))"
proof -
  have "(\<Sum>i<5. \<Sum>j<5. tap (fetch_window img r c) 0 0 i j) =
      (\<Sum>i<5. \<Sum>j<5.
         if image_at img (int r + int i - 2) (int c + int j - 2)
         then sint (LOG_FILTER ! i ! j) else 0)"
    by (intro sum.cong refl tap_fetch_window) simp_all
  then show ?thesis
    using compute_blob_detection_sum [OF valid_fetch_window, of 0 0 img r c]
    by (simp add: LOG_RESPONSE_THRESHOLD_int)
qed

lemma length_square_image: "length square_image = 7"
  by (simp add: square_image_def)

lemma length_square_image_row: "r < 7 \<Longrightarrow> length (square_image ! r) = 7"
  by (simp add: square_image_def)

lemma image_at_square_image:
  "image_at square_image row col \<longleftrightarrow> 1 \<le> row \<and> row \<le> 5 \<and> 1 \<le> col \<and> col \<le> 5"
proof (cases "0 \<le> row \<and> row < 7")
  case row: True
  then have nr: "nat row < 7" by (simp add: nat_less_iff)
  then have len: "length (square_image ! nat row) = 7" by (rule length_square_image_row)
  show ?thesis
  proof (cases "0 \<le> col \<and> col < 7")
    case True
    then have "nat col < 7" by (simp add: nat_less_iff)
    with nr have "square_image ! nat row ! nat col \<longleftrightarrow>
        1 \<le> nat row \<and> nat row \<le> 5 \<and> 1 \<le> nat col \<and> nat col \<le> 5"
      by (simp add: square_image_def)
    with row True show ?thesis
      by (auto simp: image_at_def length_square_image len)
  next
    case False
    with row show ?thesis
      by (auto simp: image_at_def length_square_image len)
  qed
next
  case False
  then show ?thesis
    by (auto simp: image_at_def length_square_image)
qed

lemma scan_square_image_at:
  "compute_blob_detection (fetch_window square_image r c) 0 0 =
     Some (8028 \<le> (\<Sum>i<5. \<Sum>j<5.
       if 1 \<le> int r + int i - 2 \<and> int r + int i - 2 \<le> 5 \<and>
          1 \<le> int c + int j - 2 \<and> int c + int j - 2 \<le> 5
       then sint (LOG_FILTER ! i ! j) else 0))"
  by (simp only: compute_blob_detection_fetch_window image_at_square_image)

lemma blob_scan_square_image_eq:
  "blob_scan square_image = replicate 7 (replicate 7 (Some False))"
  by (simp add: blob_scan_def length_square_image length_square_image_row upt_0_7
      scan_square_image_at sum_below_5 LOG_FILTER_eq replicate_7)

lemma fetch_window_square_image_centre: "fetch_window square_image 3 3 = ones_window"
  by (simp add: fetch_window_def image_at_square_image ones_window_def upt_0_5 replicate_5
      BLOB_FILTER_HEIGHT_def BLOB_FILTER_WIDTH_def)

lemma log_response_ones_window: "log_response ones_window 0 0 = Some (- 11)"
  by (simp add: log_response_def ones_window_def replicate_5 BLOB_FILTER_HEIGHT_def
      BLOB_FILTER_WIDTH_def upt_0_5 window_row_def window_col_def window_at_def LOG_FILTER_eq)

text \<open>
  Claim C2, as amended. The scan of the 7 by 7 image with the 5 by 5 square of on pixels
  centred at \<open>(3, 3)\<close>, with offsets \<open>(0, 0)\<close> everywhere, yields false at every
  coordinate, \<open>(3, 3)\<close> included. The window there is on everywhere; its response is
  the sum of all 25 stored weights, \<open>- 11 / 2 ^ 14\<close>, which is below the stored
  threshold \<open>8028 / 2 ^ 14\<close>, so the filter returns false on it.
\<close>

theorem square_image_scan_all_false:
  "blob_scan square_image = replicate 7 (replicate 7 (Some False))
   \<and> fetch_window square_image 3 3 = ones_window
   \<and> log_response ones_window 0 0 = Some (- 11)
   \<and> sum_list (map sint (concat LOG_FILTER)) = - 11
   \<and> sint LOG_RESPONSE_THRESHOLD = 8028
   \<and> compute_blob_detection ones_window 0 0 = Some False"
  by (simp add: blob_scan_square_image_eq fetch_window_square_image_centre
      log_response_ones_window compute_blob_detection_def LOG_RESPONSE_THRESHOLD_eq)
    (simp add: LOG_FILTER_eq)

text \<open>
  Claim C2 as stated fails: the window of the scan at \<open>(3, 3)\<close> is the window that is on
  everywhere, and the filter returns false on it with offsets \<open>(0, 0)\<close>.
\<close>

theorem all_on_window_not_detected:
  "fetch_window square_image 3 3 = ones_window
   \<and> compute_blob_detection ones_window 0 0 = Some False"
  by (simp add: fetch_window_square_image_centre log_response_ones_window
      compute_blob_detection_def LOG_RESPONSE_THRESHOLD_eq)

section \<open>The accumulator never overflows\<close>

lemma LOG_FILTER_weight_bounds:
  assumes "i < 5" "j < 5"
  shows "- 818 \<le> sint (LOG_FILTER ! i ! j) \<and> sint (LOG_FILTER ! i ! j) \<le> 5213"
  using less_5_cases [OF assms(1)] less_5_cases [OF assms(2)]
  by (auto simp: LOG_FILTER_eq)

lemma blob_detect_row_prefix:
  assumes "valid_window window" "0 \<le> start_row" "start_row \<le> 5"
    "0 \<le> start_col" "start_col \<le> 5" "i \<le> 5"
  shows "blob_detect_row window start_row start_col [0..<i] 0 =
    Some (word_of_int (\<Sum>i'<i. \<Sum>j<5. tap window start_row start_col i' j))"
  using blob_detect_row_sum [OF assms(1-5), of "[0..<i]" 0] assms(6)
  by (simp add: sum_list_upt)

lemma blob_detect_col_prefix:
  assumes "valid_window window" "0 \<le> start_row" "start_row \<le> 5"
    "0 \<le> start_col" "start_col \<le> 5" "i < 5" "j \<le> 5"
  shows "blob_detect_col window start_row start_col i [0..<j] response =
    Some (response + word_of_int (\<Sum>j'<j. tap window start_row start_col i j'))"
  using blob_detect_col_sum [OF assms(1-6), of "[0..<j]" response] assms(7)
  by (simp add: sum_list_upt)

lemma sint_add_exact:
  fixes a b :: log_response_t
  assumes "- 32768 \<le> sint a + sint b" "sint a + sint b < 32768"
  shows "sint (a + b) = sint a + sint b"
proof -
  have "sint (a + b) = signed_take_bit 15 (sint a + sint b)"
    by (simp add: sint_word_ariths)
  with assms show ?thesis by (simp add: signed_take_bit_int_eq_self)
qed

text \<open>
  Claim C8. For every 5 by 5 window and offsets in \<open>[0, 5)\<close>, at every tap \<open>(i, j)\<close> of
  the accumulation: the loops reach the tap with an accumulator \<open>r2\<close> (the outer loop
  has done the rows before \<open>i\<close>, the inner loop the columns before \<open>j\<close>); the value of
  \<open>r2\<close> lies strictly between \<open>- 2\<close> and \<open>2\<close>; the weight of the tap lies in
  \<open>[- 1, 1]\<close>; and adding the weight to the accumulator stays strictly between \<open>- 2\<close>
  and \<open>2\<close>, so that the addition of the type does not wrap: it is the exact sum.
\<close>

theorem response_never_overflows:
  assumes "valid_window window" "valid_offset start_row" "valid_offset start_col"
    "i < BLOB_FILTER_HEIGHT" "j < BLOB_FILTER_WIDTH"
  shows "\<exists>r1 r2.
      blob_detect_row window start_row start_col [0..<i] 0 = Some r1
    \<and> blob_detect_col window start_row start_col i [0..<j] r1 = Some r2
    \<and> - 2 < log_response_value r2 \<and> log_response_value r2 < 2
    \<and> - 1 \<le> log_response_value (LOG_FILTER ! i ! j)
    \<and> log_response_value (LOG_FILTER ! i ! j) \<le> 1
    \<and> - 2 < log_response_value r2 + log_response_value (LOG_FILTER ! i ! j)
    \<and> log_response_value r2 + log_response_value (LOG_FILTER ! i ! j) < 2
    \<and> sint (r2 + LOG_FILTER ! i ! j) = sint r2 + sint (LOG_FILTER ! i ! j)
    \<and> log_response_value (r2 + LOG_FILTER ! i ! j) =
        log_response_value r2 + log_response_value (LOG_FILTER ! i ! j)"
proof -
  note r = valid_offset_bounds [OF assms(2)] and c = valid_offset_bounds [OF assms(3)]
  from assms have i: "i < 5" and j: "j < 5"
    by (simp_all add: BLOB_FILTER_HEIGHT_def BLOB_FILTER_WIDTH_def)
  let ?r1 = "word_of_int (\<Sum>i'<i. \<Sum>j<5. tap window start_row start_col i' j) :: log_response_t"
  let ?r2 = "word_of_int (partial_response window start_row start_col i j) :: log_response_t"
  let ?k = "LOG_FILTER ! i ! j"
  have r1: "blob_detect_row window start_row start_col [0..<i] 0 = Some ?r1"
    using assms(1) r c i by (intro blob_detect_row_prefix) simp_all
  have r2: "blob_detect_col window start_row start_col i [0..<j] ?r1 = Some ?r2"
    using blob_detect_col_prefix [of window start_row start_col i j ?r1] assms(1) r c i j
    by (simp add: partial_response_def)
  have s2: "sint ?r2 = partial_response window start_row start_col i j"
    using i j by (intro partial_response_sint) simp_all
  have b2: "- 11272 \<le> sint ?r2" "sint ?r2 \<le> 11261"
    using partial_response_lower [of i j window start_row start_col]
      partial_response_upper [of i j window start_row start_col] i j
    by (simp_all add: s2)
  have bk: "- 818 \<le> sint ?k" "sint ?k \<le> 5213"
    using LOG_FILTER_weight_bounds [OF i j] by simp_all
  have exact: "sint (?r2 + ?k) = sint ?r2 + sint ?k"
    using b2 bk by (intro sint_add_exact) linarith+
  define A where "A = sint ?r2"
  define K where "K = sint ?k"
  have v: "log_response_value ?r2 = of_int A / 16384" "log_response_value ?k = of_int K / 16384"
    "log_response_value (?r2 + ?k) = of_int (A + K) / 16384"
    unfolding log_response_value_eq exact A_def K_def by (rule refl)+
  have "- 11272 \<le> A" "A \<le> 11261" "- 818 \<le> K" "K \<le> 5213"
    using b2 bk by (simp_all add: A_def K_def)
  then have "- 2 < log_response_value ?r2 \<and> log_response_value ?r2 < 2
    \<and> - 1 \<le> log_response_value ?k \<and> log_response_value ?k \<le> 1
    \<and> - 2 < log_response_value ?r2 + log_response_value ?k
    \<and> log_response_value ?r2 + log_response_value ?k < 2
    \<and> log_response_value (?r2 + ?k) = log_response_value ?r2 + log_response_value ?k"
    unfolding v by (simp add: add_divide_distrib [symmetric] flip: of_int_add)
  with r1 r2 exact show ?thesis by blast
qed

section \<open>The response is monotone in the pixels\<close>

lemma kernel_index_less: "kernel_index s r < 5"
  by (simp add: kernel_index_def BLOB_FILTER_HEIGHT_def nat_less_iff)

lemma window_row_kernel_index:
  assumes "0 \<le> s" "s < 5" "r < 5"
  shows "window_row s (kernel_index s r) = int r"
proof -
  have "window_row s (kernel_index s r) = (s + int (kernel_index s r)) mod 5"
    using assms by (intro window_row_mod) (simp_all add: kernel_index_less)
  also have "int (kernel_index s r) = (int r - s) mod 5"
    by (simp add: kernel_index_def BLOB_FILTER_HEIGHT_def)
  also have "(s + (int r - s) mod 5) mod 5 = int r mod 5"
    by (simp add: mod_simps)
  finally show ?thesis using assms by simp
qed

lemma window_col_is_window_row: "window_col s j = window_row s j"
  by (simp add: window_col_def window_row_def BLOB_FILTER_HEIGHT_def BLOB_FILTER_WIDTH_def)

lemma window_row_inj:
  assumes "0 \<le> s" "s < 5" "i < 5" "r < 5" "window_row s i = int r"
  shows "i = kernel_index s r"
proof -
  have "(s + int i) mod 5 = int r"
    using assms window_row_mod [of s i] by simp
  moreover have "((s + int i) mod 5 - s) mod 5 = int i mod 5"
    by (simp add: mod_simps)
  ultimately have "(int r - s) mod 5 = int i"
    using assms by simp
  then show ?thesis by (simp add: kernel_index_def BLOB_FILTER_HEIGHT_def)
qed

lemma valid_set_pixel:
  assumes "valid_window window"
  shows "valid_window (set_pixel window r c)"
proof -
  from assms have len: "length window = 5" and rows: "\<forall>x \<in> set window. length x = 5"
    by (simp_all add: valid_window_def BLOB_FILTER_HEIGHT_def BLOB_FILTER_WIDTH_def list_all_iff)
  have "length x = 5" if "x \<in> set (set_pixel window r c)" for x
  proof (cases "r < length window")
    case True
    then have "length ((window ! r)[c := True]) = 5" using rows by simp
    moreover from that have "x = (window ! r)[c := True] \<or> x \<in> set window"
      using set_update_subset_insert [of window r "(window ! r)[c := True]"]
      by (auto simp: set_pixel_def)
    ultimately show ?thesis using rows by auto
  next
    case False
    then have "set_pixel window r c = window"
      by (simp add: set_pixel_def list_update_beyond not_less)
    with that rows show ?thesis by simp
  qed
  with len show ?thesis
    by (simp add: valid_window_def BLOB_FILTER_HEIGHT_def BLOB_FILTER_WIDTH_def list_all_iff
        set_pixel_def)
qed

lemma set_pixel_nth:
  assumes "valid_window window" "r < 5" "c < 5" "R < 5" "C < 5"
  shows "set_pixel window r c ! R ! C = (if R = r \<and> C = c then True else window ! R ! C)"
proof -
  from assms have len: "length window = 5" and rows: "\<forall>x \<in> set window. length x = 5"
    by (simp_all add: valid_window_def BLOB_FILTER_HEIGHT_def BLOB_FILTER_WIDTH_def list_all_iff)
  from len assms have "length (window ! r) = 5" using rows by simp
  with len assms show ?thesis by (simp add: set_pixel_def nth_list_update)
qed

lemma sum_delta_pair:
  fixes i j :: nat
  assumes "i < 5" "j < 5"
  shows "(\<Sum>i'<5. \<Sum>j'<5. if i' = i \<and> j' = j then k else 0) = (k::int)"
proof -
  have "(\<Sum>j'<5. if i' = i \<and> j' = j then k else 0) = (if i' = i then k else 0)" for i' :: nat
    using assms by (cases "i' = i") (simp_all add: sum.delta)
  then show ?thesis using assms by (simp add: sum.delta)
qed

lemma tap_set_pixel:
  assumes "valid_window window" "valid_offset start_row" "valid_offset start_col"
    "r < 5" "c < 5" "\<not> window ! r ! c" "i < 5" "j < 5"
  shows "tap (set_pixel window r c) start_row start_col i j =
    tap window start_row start_col i j +
      (if i = kernel_index start_row r \<and> j = kernel_index start_col c
       then sint (LOG_FILTER ! kernel_index start_row r ! kernel_index start_col c) else 0)"
proof -
  note sr = valid_offset_bounds [OF assms(2)] and sc = valid_offset_bounds [OF assms(3)]
  let ?R = "nat (window_row start_row i)" and ?C = "nat (window_col start_col j)"
  have R: "?R < 5" and C: "?C < 5"
    using window_row_bounds [of start_row i] window_col_bounds [of start_col j] sr sc assms
    by (simp_all add: nat_less_iff)
  have Rr: "?R = r \<longleftrightarrow> i = kernel_index start_row r"
  proof
    assume "?R = r"
    then have "window_row start_row i = int r"
      using window_row_bounds [of start_row i] sr assms by auto
    then show "i = kernel_index start_row r"
      using sr assms by (intro window_row_inj) simp_all
  next
    assume "i = kernel_index start_row r"
    then show "?R = r" using window_row_kernel_index [of start_row r] sr assms by simp
  qed
  have Cc: "?C = c \<longleftrightarrow> j = kernel_index start_col c"
  proof
    assume "?C = c"
    then have "window_row start_col j = int c"
      using window_col_bounds [of start_col j] sc assms by (auto simp: window_col_is_window_row)
    then show "j = kernel_index start_col c"
      using sc assms by (intro window_row_inj) simp_all
  next
    assume "j = kernel_index start_col c"
    then show "?C = c"
      using window_row_kernel_index [of start_col c] sc assms
      by (simp add: window_col_is_window_row)
  qed
  have "set_pixel window r c ! ?R ! ?C = (if ?R = r \<and> ?C = c then True else window ! ?R ! ?C)"
    using assms R C by (intro set_pixel_nth) simp_all
  then show ?thesis
    using assms(6) Rr Cc by (auto simp: tap_def)
qed

text \<open>
  Claim C7. For every 5 by 5 window, offsets in \<open>[0, 5)\<close> and window position \<open>(r, c)\<close>
  that is off: turning the pixel on, everything else fixed, adds to the response the
  weight of the one kernel tap that reads the position. So the response does not
  decrease when that weight is non-negative, and does not increase when it is negative.
\<close>

theorem response_monotone_in_pixel:
  assumes "valid_window window" "valid_offset start_row" "valid_offset start_col"
    "r < BLOB_FILTER_HEIGHT" "c < BLOB_FILTER_WIDTH" "\<not> window ! r ! c"
  shows "\<exists>a b weight.
      log_response window start_row start_col = Some a
    \<and> log_response (set_pixel window r c) start_row start_col = Some b
    \<and> weight = LOG_FILTER ! kernel_index start_row r ! kernel_index start_col c
    \<and> window_row start_row (kernel_index start_row r) = int r
    \<and> window_col start_col (kernel_index start_col c) = int c
    \<and> sint b = sint a + sint weight
    \<and> (0 \<le> sint weight \<longrightarrow> sint a \<le> sint b)
    \<and> (sint weight < 0 \<longrightarrow> sint b \<le> sint a)"
proof -
  note sr = valid_offset_bounds [OF assms(2)] and sc = valid_offset_bounds [OF assms(3)]
  from assms have r: "r < 5" and c: "c < 5"
    by (simp_all add: BLOB_FILTER_HEIGHT_def BLOB_FILTER_WIDTH_def)
  let ?i = "kernel_index start_row r" and ?j = "kernel_index start_col c"
  let ?k = "sint (LOG_FILTER ! ?i ! ?j)"
  obtain a where a: "log_response window start_row start_col = Some a"
    "sint a = (\<Sum>i<5. \<Sum>j<5. tap window start_row start_col i j)"
    using log_response_sint [of window start_row start_col] assms(1) sr sc by auto
  obtain b where b: "log_response (set_pixel window r c) start_row start_col = Some b"
    "sint b = (\<Sum>i<5. \<Sum>j<5. tap (set_pixel window r c) start_row start_col i j)"
    using log_response_sint [of "set_pixel window r c" start_row start_col]
      valid_set_pixel [OF assms(1)] sr sc by auto
  have "sint b = (\<Sum>i<5. \<Sum>j<5. tap window start_row start_col i j +
      (if i = ?i \<and> j = ?j then ?k else 0))"
    unfolding b(2) using assms(1-3) r c assms(6)
    by (intro sum.cong refl tap_set_pixel) simp_all
  also have "\<dots> = sint a + ?k"
    by (simp add: sum.distrib a(2) sum_delta_pair kernel_index_less)
  finally have "sint b = sint a + ?k" .
  moreover have "window_row start_row ?i = int r" "window_col start_col ?j = int c"
    using window_row_kernel_index [of start_row r] window_row_kernel_index [of start_col c]
      sr sc r c by (simp_all add: window_col_is_window_row)
  ultimately show ?thesis using a(1) b(1) by auto
qed

section \<open>The two properties on the wrapped peak-match window\<close>

lemma upt_0_2: "[0..<2] = [0, 1]"
  by (simp add: upt_rec)

lemma upt_0_3: "[0..<3] = [0, 1, 2]"
  by (simp add: upt_rec)

lemma log_response_wrapped_peak: "log_response wrapped_peak_window 3 1 = Some 11261"
  by (simp add: log_response_def wrapped_peak_window_def BLOB_FILTER_HEIGHT_def
      BLOB_FILTER_WIDTH_def upt_0_5 window_row_def window_col_def window_at_def LOG_FILTER_eq)

lemma set_pixel_wrapped_peak:
  "set_pixel wrapped_peak_window 2 0 =
     [[False, False, True, True, True],
      [False, False, False, True, False],
      [True, False, False, False, False],
      [False, False, False, False, False],
      [False, False, False, True, False]]"
  by (simp add: set_pixel_def wrapped_peak_window_def eval_nat_numeral)

lemma log_response_set_pixel_wrapped_peak:
  "log_response (set_pixel wrapped_peak_window 2 0) 3 1 = Some 10869"
  by (simp add: set_pixel_wrapped_peak log_response_def BLOB_FILTER_HEIGHT_def
      BLOB_FILTER_WIDTH_def upt_0_5 window_row_def window_col_def window_at_def LOG_FILTER_eq)

theorem response_monotone_in_pixel_witness:
  "valid_window wrapped_peak_window \<and> valid_offset 3 \<and> valid_offset 1
   \<and> 2 < BLOB_FILTER_HEIGHT \<and> 0 < BLOB_FILTER_WIDTH \<and> \<not> wrapped_peak_window ! 2 ! 0
   \<and> kernel_index 3 2 = 4 \<and> kernel_index 1 0 = 4 \<and> sint (LOG_FILTER ! 4 ! 4) < 0
   \<and> log_response wrapped_peak_window 3 1 = Some 11261
   \<and> log_response (set_pixel wrapped_peak_window 2 0) 3 1 = Some 10869
   \<and> sint (10869 :: log_response_t) \<le> sint (11261 :: log_response_t)"
proof -
  have h: "valid_window wrapped_peak_window" "valid_offset 3" "valid_offset 1"
    "2 < BLOB_FILTER_HEIGHT" "0 < BLOB_FILTER_WIDTH" "\<not> wrapped_peak_window ! 2 ! 0"
    by (rule valid_wrapped_peak_window)
      (simp_all add: valid_offset_def BLOB_FILTER_HEIGHT_def BLOB_FILTER_WIDTH_def
        wrapped_peak_window_def)
  have k: "kernel_index 3 2 = 4" "kernel_index 1 0 = 4" "sint (LOG_FILTER ! 4 ! 4) < 0"
    by (simp_all add: kernel_index_def BLOB_FILTER_HEIGHT_def LOG_FILTER_eq)
  from response_monotone_in_pixel [OF h] obtain a b weight where
    "log_response wrapped_peak_window 3 1 = Some a"
    "log_response (set_pixel wrapped_peak_window 2 0) 3 1 = Some b"
    "weight = LOG_FILTER ! kernel_index 3 2 ! kernel_index 1 0"
    "sint weight < 0 \<longrightarrow> sint b \<le> sint a"
    by blast
  then have "sint (10869 :: log_response_t) \<le> sint (11261 :: log_response_t)"
    using k by (simp add: log_response_wrapped_peak log_response_set_pixel_wrapped_peak)
  with h k show ?thesis
    by (simp add: log_response_wrapped_peak log_response_set_pixel_wrapped_peak)
qed

lemma blob_detect_row_wrapped_peak:
  "blob_detect_row wrapped_peak_window 3 1 [0..<2] 0 = Some 1512"
  by (simp add: wrapped_peak_window_def BLOB_FILTER_WIDTH_def upt_0_5 upt_0_2
      window_row_def window_col_def window_at_def LOG_FILTER_eq BLOB_FILTER_HEIGHT_def)

lemma blob_detect_col_wrapped_peak:
  "blob_detect_col wrapped_peak_window 3 1 2 [0..<3] 1512 = Some 8237"
  by (simp add: wrapped_peak_window_def BLOB_FILTER_WIDTH_def upt_0_3
      window_row_def window_col_def window_at_def LOG_FILTER_eq BLOB_FILTER_HEIGHT_def)

theorem response_never_overflows_witness:
  "valid_window wrapped_peak_window \<and> valid_offset 3 \<and> valid_offset 1
   \<and> 2 < BLOB_FILTER_HEIGHT \<and> 3 < BLOB_FILTER_WIDTH
   \<and> blob_detect_row wrapped_peak_window 3 1 [0..<2] 0 = Some 1512
   \<and> blob_detect_col wrapped_peak_window 3 1 2 [0..<3] 1512 = Some 8237
   \<and> - 2 < log_response_value 8237 \<and> log_response_value 8237 < 2
   \<and> sint (8237 + LOG_FILTER ! 2 ! 3) = sint (8237 :: log_response_t) + sint (LOG_FILTER ! 2 ! 3)"
proof -
  have h: "valid_window wrapped_peak_window" "valid_offset 3" "valid_offset 1"
    "2 < BLOB_FILTER_HEIGHT" "3 < BLOB_FILTER_WIDTH"
    by (simp_all add: valid_wrapped_peak_window valid_offset_def BLOB_FILTER_HEIGHT_def
        BLOB_FILTER_WIDTH_def)
  from response_never_overflows [OF h] obtain r1 r2 where
    "blob_detect_row wrapped_peak_window 3 1 [0..<2] 0 = Some r1"
    "blob_detect_col wrapped_peak_window 3 1 2 [0..<3] r1 = Some r2"
    "- 2 < log_response_value r2" "log_response_value r2 < 2"
    "sint (r2 + LOG_FILTER ! 2 ! 3) = sint r2 + sint (LOG_FILTER ! 2 ! 3)"
    by blast
  then have "- 2 < log_response_value 8237 \<and> log_response_value 8237 < 2
    \<and> sint (8237 + LOG_FILTER ! 2 ! 3) = sint (8237 :: log_response_t) + sint (LOG_FILTER ! 2 ! 3)"
    by (simp add: blob_detect_row_wrapped_peak blob_detect_col_wrapped_peak)
  with h show ?thesis
    by (simp add: blob_detect_row_wrapped_peak blob_detect_col_wrapped_peak)
qed

end
